theory Spec2Isabelle
  imports Complex_Main "HOL-Library.Signed_Division" "HOL-Library.Multiset"
begin

section \<open>Common data\<close>

text \<open>
  Go byte slices and strings are lists of bytes; Isabelle's \<^typ>\<open>char\<close> is a byte.
  A Go \<^verbatim>\<open>error\<close> value is opaque to the program (it is only compared with \<^verbatim>\<open>nil\<close>),
  so it carries its message and \<^verbatim>\<open>nil\<close> is \<^term>\<open>None\<close>.

  The counters of the program are \<^verbatim>\<open>int64\<close> and \<^verbatim>\<open>int\<close>. Each of them starts at zero and
  grows by one per request or by the byte count of one I/O call, so the bound \<open>2 ^ 63\<close>
  is out of reach of a run and the counters are modelled as \<^typ>\<open>int\<close>.
\<close>

type_synonym bytes = string

datatype error = Error string


section \<open>The engine of \<^verbatim>\<open>cmd/gobench/gobench.go\<close>\<close>

subsection \<open>Result and throughput counters\<close>

record Result =
  requests :: int
  success :: int
  networkFailed :: int
  badFailed :: int

text \<open>\<^verbatim>\<open>&Result{}\<close>: the zero value.\<close>

definition new_Result :: Result where
  "new_Result = \<lparr>requests = 0, success = 0, networkFailed = 0, badFailed = 0\<rparr>"

text \<open>The two package-level variables \<^verbatim>\<open>readThroughput\<close> and \<^verbatim>\<open>writeThroughput\<close>.\<close>

record throughput =
  readThroughput :: int
  writeThroughput :: int

subsection \<open>MyConn: the counting connection\<close>

text \<open>
  \<^verbatim>\<open>MyConn\<close> embeds a \<^verbatim>\<open>net.Conn\<close>. The embedded connection is a parameter: its \<^verbatim>\<open>Read\<close>
  takes the connection state and the caller's buffer and gives the buffer as it left it,
  the count \<open>n\<close> and the error; its \<^verbatim>\<open>Write\<close> takes the bytes to send and gives the count and
  the error. The count is a \<^typ>\<open>nat\<close>: \<^verbatim>\<open>io.Reader\<close> and \<^verbatim>\<open>io.Writer\<close> promise
  \<open>0 \<le> n \<le> len(b)\<close>, and the connections come from \<^verbatim>\<open>net.Dial("tcp", address)\<close>.
\<close>

record io_result =
  io_buf :: bytes
  io_n :: nat
  io_err :: "error option"

type_synonym 'c conn_op = "'c \<Rightarrow> bytes \<Rightarrow> io_result \<times> 'c"

record 'c net_Conn =
  Conn_Read :: "'c conn_op"
  Conn_Write :: "'c conn_op"

text \<open>\<^verbatim>\<open>atomic.AddInt64(&readThroughput, int64(len))\<close> and its twin.\<close>

definition add_readThroughput :: "nat \<Rightarrow> throughput \<Rightarrow> throughput" where
  "add_readThroughput len t = t\<lparr>readThroughput := readThroughput t + int len\<rparr>"

definition add_writeThroughput :: "nat \<Rightarrow> throughput \<Rightarrow> throughput" where
  "add_writeThroughput len t = t\<lparr>writeThroughput := writeThroughput t + int len\<rparr>"

text \<open>
  \<^verbatim>\<open>func (conn *MyConn) Read(b []byte) (n int, err error)\<close>: what the caller gets back
  (buffer, count, error), the connection afterwards and the counters afterwards.
\<close>

definition MyConn_Read ::
  "'c net_Conn \<Rightarrow> 'c \<Rightarrow> bytes \<Rightarrow> throughput \<Rightarrow> (io_result \<times> 'c) \<times> throughput" where
  "MyConn_Read nc conn b t =
     (let (r, conn') = Conn_Read nc conn b;
          t' = (if io_err r = None then add_readThroughput (io_n r) t else t)
      in ((r, conn'), t'))"

definition MyConn_Write ::
  "'c net_Conn \<Rightarrow> 'c \<Rightarrow> bytes \<Rightarrow> throughput \<Rightarrow> (io_result \<times> 'c) \<times> throughput" where
  "MyConn_Write nc conn b t =
     (let (r, conn') = Conn_Write nc conn b;
          t' = (if io_err r = None then add_writeThroughput (io_n r) t else t)
      in ((r, conn'), t'))"

text \<open>
  The traffic of a run, as the counters see it: a sequence of \<^verbatim>\<open>Read\<close> and \<^verbatim>\<open>Write\<close> calls,
  each on some wrapped connection (in the state it then has) with the buffer it was given.
  The additions are atomic, so the calls of all workers come in some order. Nothing else
  in the program assigns to the two counters.
\<close>

datatype 'c io_call = ReadCall 'c bytes | WriteCall 'c bytes

fun MyConn_call :: "'c net_Conn \<Rightarrow> 'c io_call \<Rightarrow> throughput \<Rightarrow> throughput" where
  "MyConn_call nc (ReadCall conn b) t = snd (MyConn_Read nc conn b t)"
| "MyConn_call nc (WriteCall conn b) t = snd (MyConn_Write nc conn b t)"

fun MyConn_calls :: "'c net_Conn \<Rightarrow> 'c io_call list \<Rightarrow> throughput \<Rightarrow> throughput" where
  "MyConn_calls nc [] t = t"
| "MyConn_calls nc (c # cs) t = MyConn_calls nc cs (MyConn_call nc c t)"

subsection \<open>printResults\<close>

text \<open>
  \<^verbatim>\<open>int64(x)\<close> on a \<^verbatim>\<open>float64\<close> discards the fraction (truncation towards zero). The value
  of \<^verbatim>\<open>time.Since(startTime).Seconds()\<close> is a parameter, read as a real number.
\<close>

definition int64_of_float :: "real \<Rightarrow> int" where
  "int64_of_float x = (if 0 \<le> x then \<lfloor>x\<rfloor> else \<lceil>x\<rceil>)"

text \<open>The eight numbers that \<^verbatim>\<open>printResults\<close> prints, in the order of its lines.\<close>

record report =
  rep_requests :: int
  rep_success :: int
  rep_networkFailed :: int
  rep_badFailed :: int
  rep_successRate :: int
  rep_readThroughput :: int
  rep_writeThroughput :: int
  rep_elapsed :: int

text \<open>
  The \<^verbatim>\<open>range\<close> loop over the map of results, with its four running sums. The map is
  given as the list of its values in the order the loop meets them.
\<close>

fun sum_results :: "Result list \<Rightarrow> Result \<Rightarrow> Result" where
  "sum_results [] acc = acc"
| "sum_results (result # rest) acc =
     sum_results rest
       \<lparr>requests = requests acc + requests result,
        success = success acc + success result,
        networkFailed = networkFailed acc + networkFailed result,
        badFailed = badFailed acc + badFailed result\<rparr>"

text \<open>Go's \<^verbatim>\<open>/\<close> on integers truncates towards zero: \<^term>\<open>(sdiv)\<close>.\<close>

definition printResults :: "Result list \<Rightarrow> real \<Rightarrow> throughput \<Rightarrow> report" where
  "printResults results since t =
     (let tot = sum_results results new_Result;
          elapsed0 = int64_of_float since;
          elapsed = (if elapsed0 = 0 then 1 else elapsed0)
      in \<lparr>rep_requests = requests tot,
          rep_success = success tot,
          rep_networkFailed = networkFailed tot,
          rep_badFailed = badFailed tot,
          rep_successRate = success tot sdiv elapsed,
          rep_readThroughput = readThroughput t sdiv elapsed,
          rep_writeThroughput = writeThroughput t sdiv elapsed,
          rep_elapsed = elapsed\<rparr>)"


subsection \<open>The worker: client\<close>

record configuration =
  urls :: "string list"
  "method" :: string
  postData :: bytes
  contentType :: string
  requestCount :: int
  requestsDuration :: int
  keepAlive :: bool
  authHeader :: string

text \<open>
  The \<^verbatim>\<open>fasthttp\<close> library is outside the repository: its request type and the calls the
  worker makes on it are parameters. \<^verbatim>\<open>myClient.Do(req, resp)\<close> followed by
  \<^verbatim>\<open>resp.StatusCode()\<close> reads the network, which is the state \<open>'w\<close>: it gives the error,
  the status code and the network afterwards.
\<close>

record ('req, 'w) fasthttp =
  fh_AcquireRequest :: 'req
  fh_SetRequestURI :: "string \<Rightarrow> 'req \<Rightarrow> 'req"
  fh_SetMethodBytes :: "bytes \<Rightarrow> 'req \<Rightarrow> 'req"
  fh_HeaderSet :: "string \<Rightarrow> string \<Rightarrow> 'req \<Rightarrow> 'req"
  fh_SetContentType :: "string \<Rightarrow> 'req \<Rightarrow> 'req"
  fh_SetBody :: "bytes \<Rightarrow> 'req \<Rightarrow> 'req"
  fh_Do :: "'req \<Rightarrow> 'w \<Rightarrow> (error option \<times> int) \<times> 'w"

text \<open>Lines 246 to 265: the request for one URL.\<close>

definition client_request :: "('req, 'w) fasthttp \<Rightarrow> configuration \<Rightarrow> string \<Rightarrow> 'req" where
  "client_request fh cfg tmpUrl =
     (let req = fh_AcquireRequest fh;
          req = fh_SetRequestURI fh tmpUrl req;
          req = fh_SetMethodBytes fh (method cfg) req;
          req = (if keepAlive cfg then fh_HeaderSet fh ''Connection'' ''keep-alive'' req
                 else fh_HeaderSet fh ''Connection'' ''close'' req);
          req = (if length (authHeader cfg) > 0
                 then fh_HeaderSet fh ''Authorization'' (authHeader cfg) req else req);
          req = (if length (contentType cfg) > 0
                 then fh_SetContentType fh (contentType cfg) req else req)
      in fh_SetBody fh (postData cfg) req)"

text \<open>Lines 267 to 284: one pass of the body of the inner loop, for one URL.\<close>

definition client_attempt ::
  "('req, 'w) fasthttp \<Rightarrow> configuration \<Rightarrow> string \<Rightarrow> Result \<times> 'w \<Rightarrow> Result \<times> 'w" where
  "client_attempt fh cfg tmpUrl s =
     (let (result, w) = s;
          req = client_request fh cfg tmpUrl;
          ((err, statusCode), w') = fh_Do fh req w;
          result = result\<lparr>requests := requests result + 1\<rparr>
      in if err \<noteq> None then (result\<lparr>networkFailed := networkFailed result + 1\<rparr>, w')
         else if statusCode \<ge> 200 \<and> statusCode \<le> 226
         then (result\<lparr>success := success result + 1\<rparr>, w')
         else (result\<lparr>badFailed := badFailed result + 1\<rparr>, w'))"

text \<open>\<^verbatim>\<open>for _, tmpUrl := range configuration.urls\<close>.\<close>

fun client_urls ::
  "('req, 'w) fasthttp \<Rightarrow> configuration \<Rightarrow> string list \<Rightarrow> Result \<times> 'w \<Rightarrow> Result \<times> 'w" where
  "client_urls fh cfg [] s = s"
| "client_urls fh cfg (tmpUrl # rest) s = client_urls fh cfg rest (client_attempt fh cfg tmpUrl s)"

text \<open>
  The outer loop. It need not end (a duration run never leaves it, and neither does a
  count run over no URL): \<^term>\<open>None\<close> is the worker that never reaches \<^verbatim>\<open>done.Done()\<close>.
\<close>

partial_function (option) client ::
  "('req, 'w) fasthttp \<Rightarrow> configuration \<Rightarrow> Result \<times> 'w \<Rightarrow> (Result \<times> 'w) option" where
  "client fh cfg s =
     (if requests (fst s) < requestCount cfg \<or> requestsDuration cfg \<noteq> - 1
      then client fh cfg (client_urls fh cfg (urls cfg) s)
      else Some s)"

text \<open>
  \<^verbatim>\<open>main\<close> for a count run: one fresh \<^verbatim>\<open>Result\<close> per worker, \<^verbatim>\<open>done.Wait()\<close>, then
  \<^verbatim>\<open>printResults\<close>. The workers write disjoint results; what each of them meets on the
  network is its own \<open>'w\<close>, one per worker, so the list of them has length \<^verbatim>\<open>clients\<close>. The
  clock and the byte counters at the time of the report are parameters.
\<close>

definition main_count ::
  "('req, 'w) fasthttp \<Rightarrow> configuration \<Rightarrow> 'w list \<Rightarrow> real \<Rightarrow> throughput \<Rightarrow> report option" where
  "main_count fh cfg ws since t =
     (case those (map (\<lambda>w. client fh cfg (new_Result, w)) ws) of
        None \<Rightarrow> None
      | Some done \<Rightarrow> Some (printResults (map fst done) since t))"


section \<open>The single client of \<^verbatim>\<open>client.go\<close>\<close>

record Request =
  URL :: string
  PostBody :: "bytes option"
  ContentType :: string
  KeepAlive :: bool
  AdditionalHeaders :: "(string \<times> string) list"

record Statistic =
  ReadThroughput :: int
  WriteThroughput :: int
  RequestCount :: int
  SuccessCount :: int
  FailureCount :: int
  NetworkFailedCount :: int
  IOFailedCount :: int

definition new_Statistic :: Statistic where
  "new_Statistic =
     \<lparr>ReadThroughput = 0, WriteThroughput = 0, RequestCount = 0, SuccessCount = 0,
      FailureCount = 0, NetworkFailedCount = 0, IOFailedCount = 0\<rparr>"

record Client =
  Statistic :: Statistic
  Request :: Request

text \<open>
  The contexts the package makes: \<^verbatim>\<open>context.Background()\<close> in \<^verbatim>\<open>PerformRequest\<close> and
  \<^verbatim>\<open>context.WithTimeout(context.Background(), timeout)\<close> in \<^verbatim>\<open>RunForDuration\<close>. A nil
  context is not among them.
\<close>

datatype "context" = Background | WithTimeout "context" int

text \<open>
  What \<^verbatim>\<open>c.HTTPClient.Do(req)\<close> gives: an error, or a response with its status code and
  with what \<^verbatim>\<open>io.ReadAll(resp.Body)\<close> will get from its body (the bytes and the error).
\<close>

datatype http_result = DoError error | Response int bytes "error option"

text \<open>
  \<^verbatim>\<open>net/http\<close> and the clock are outside the repository and are parameters. A nil
  \<^verbatim>\<open>PostBody\<close> is \<^term>\<open>None\<close>; a nil map of headers ranges like the empty one.
\<close>

record ('req, 'w) net_http =
  NewRequestWithContext :: "context \<Rightarrow> string \<Rightarrow> string \<Rightarrow> bytes option \<Rightarrow> error + 'req"
  http_HeaderSet :: "string \<Rightarrow> string \<Rightarrow> 'req \<Rightarrow> 'req"
  http_Do :: "'req \<Rightarrow> 'w \<Rightarrow> http_result \<times> 'w"
  time_Now :: "'w \<Rightarrow> int"

text \<open>
  A panic is a value. In the \<^verbatim>\<open>POST\<close> branch the header is set on \<^verbatim>\<open>req\<close> before \<^verbatim>\<open>err\<close>
  is looked at: when the constructor failed, \<^verbatim>\<open>req\<close> is nil and that line panics first.
\<close>

datatype panic = NilDereference | PanicString string

text \<open>Lines 318 to 328.\<close>

definition prepare_request ::
  "('req, 'w) net_http \<Rightarrow> context \<Rightarrow> Request \<Rightarrow> panic + 'req" where
  "prepare_request env ctx r =
     (case PostBody r of
        Some body \<Rightarrow>
          (case NewRequestWithContext env ctx ''POST'' (URL r) (Some body) of
             Inl err \<Rightarrow> Inl NilDereference
           | Inr req \<Rightarrow> Inr (http_HeaderSet env ''Content-Type'' (ContentType r) req))
      | None \<Rightarrow>
          (case NewRequestWithContext env ctx ''GET'' (URL r) None of
             Inl err \<Rightarrow> Inl (PanicString ''Could not create http request'')
           | Inr req \<Rightarrow> Inr req))"

text \<open>Lines 330 to 340: the headers, set before the request is counted and sent.\<close>

definition set_headers :: "('req, 'w) net_http \<Rightarrow> Request \<Rightarrow> 'req \<Rightarrow> 'req" where
  "set_headers env r req =
     (let req = (if KeepAlive r then http_HeaderSet env ''Connection'' ''keep-alive'' req
                 else http_HeaderSet env ''Connection'' ''close'' req)
      in fold (\<lambda>(k, v). http_HeaderSet env k v) (AdditionalHeaders r) req)"

text \<open>Lines 351 to 363: the statistic of a response.\<close>

definition write_statistic :: "Request \<Rightarrow> int \<Rightarrow> bytes \<Rightarrow> error option \<Rightarrow> Statistic \<Rightarrow> Statistic" where
  "write_statistic r StatusCode body err st =
     (let st = (if StatusCode \<ge> 200 \<and> StatusCode \<le> 299
                then st\<lparr>SuccessCount := SuccessCount st + 1\<rparr>
                else st\<lparr>FailureCount := FailureCount st + 1\<rparr>);
          st = (if err \<noteq> None then st\<lparr>IOFailedCount := IOFailedCount st + 1\<rparr> else st);
          st = st\<lparr>ReadThroughput := ReadThroughput st + int (length body)\<rparr>
      in st\<lparr>WriteThroughput := WriteThroughput st +
               int (length (case PostBody r of None \<Rightarrow> [] | Some b \<Rightarrow> b))\<rparr>)"

definition PerformRequestWithContent ::
  "('req, 'w) net_http \<Rightarrow> context \<Rightarrow> Client \<times> 'w \<Rightarrow> panic + Client \<times> 'w" where
  "PerformRequestWithContent env ctx s =
     (let (c, w) = s in
      case prepare_request env ctx (Request c) of
        Inl p \<Rightarrow> Inl p
      | Inr req \<Rightarrow>
          (let req = set_headers env (Request c) req;
               st = (Statistic c)\<lparr>RequestCount := RequestCount (Statistic c) + 1\<rparr>;
               (resp, w') = http_Do env req w
           in case resp of
                DoError err \<Rightarrow>
                  Inr (c\<lparr>Statistic := st\<lparr>NetworkFailedCount := NetworkFailedCount st + 1\<rparr>\<rparr>, w')
              | Response StatusCode body err \<Rightarrow>
                  Inr (c\<lparr>Statistic := write_statistic (Request c) StatusCode body err st\<rparr>, w')))"

definition PerformRequest ::
  "('req, 'w) net_http \<Rightarrow> Client \<times> 'w \<Rightarrow> panic + Client \<times> 'w" where
  "PerformRequest env s = PerformRequestWithContent env Background s"

text \<open>
  \<^verbatim>\<open>for i := 0; i < requestCount; i++\<close>, left by a panic. The argument is called
  \<open>amount\<close> here, \<open>requestCount\<close> being a field of the engine's configuration.
\<close>

function RunForAmount_loop ::
  "('req, 'w) net_http \<Rightarrow> int \<Rightarrow> int \<Rightarrow> Client \<times> 'w \<Rightarrow> panic + Client \<times> 'w" where
  "RunForAmount_loop env i amount s =
     (if i < amount
      then (case PerformRequest env s of
              Inl p \<Rightarrow> Inl p
            | Inr s' \<Rightarrow> RunForAmount_loop env (i + 1) amount s')
      else Inr s)"
  by pat_completeness auto
termination
  by (relation "measure (\<lambda>(env, i, amount, s). nat (amount - i))") auto

definition RunForAmount ::
  "('req, 'w) net_http \<Rightarrow> int \<Rightarrow> Client \<times> 'w \<Rightarrow> panic + Client \<times> 'w" where
  "RunForAmount env amount s = RunForAmount_loop env 0 amount s"

text \<open>
  \<^verbatim>\<open>for time.Since(startTime) < timeout\<close>: the loop ends when the clock says so, or is left
  by a panic; \<^term>\<open>None\<close> is the loop that does neither.
\<close>

partial_function (option) RunForDuration_loop ::
  "('req, 'w) net_http \<Rightarrow> context \<Rightarrow> int \<Rightarrow> int \<Rightarrow> Client \<times> 'w \<Rightarrow> (panic + Client \<times> 'w) option" where
  "RunForDuration_loop env ctx startTime timeout s =
     (if time_Now env (snd s) - startTime < timeout
      then (case PerformRequestWithContent env ctx s of
              Inl p \<Rightarrow> Some (Inl p)
            | Inr s' \<Rightarrow> RunForDuration_loop env ctx startTime timeout s')
      else Some (Inr s))"

text \<open>Lines 295 to 300: the last request can be interrupted by the context's timeout.\<close>

definition remove_interrupted :: "Client \<Rightarrow> Client" where
  "remove_interrupted c =
     (if NetworkFailedCount (Statistic c) = 1
      then c\<lparr>Statistic := (Statistic c)
               \<lparr>RequestCount := RequestCount (Statistic c) - 1,
                NetworkFailedCount := NetworkFailedCount (Statistic c) - 1\<rparr>\<rparr>
      else c)"

definition RunForDuration ::
  "('req, 'w) net_http \<Rightarrow> int \<Rightarrow> Client \<times> 'w \<Rightarrow> (panic + Client \<times> 'w) option" where
  "RunForDuration env timeout s =
     (let startTime = time_Now env (snd s);
          ctx = WithTimeout Background timeout
      in case RunForDuration_loop env ctx startTime timeout s of
           None \<Rightarrow> None
         | Some (Inl p) \<Rightarrow> Some (Inl p)
         | Some (Inr (c, w)) \<Rightarrow> Some (Inr (remove_interrupted c, w)))"


section \<open>Notions of the properties\<close>

text \<open>The request counter balances the three outcome counters.\<close>

definition accounted :: "Result \<Rightarrow> bool" where
  "accounted r \<longleftrightarrow> requests r = success r + networkFailed r + badFailed r"

definition stat_accounted :: "Statistic \<Rightarrow> bool" where
  "stat_accounted st \<longleftrightarrow>
     RequestCount st = SuccessCount st + FailureCount st + NetworkFailedCount st"

text \<open>
  Whole passes over \<open>k\<close> URLs, from \<open>r\<close> requests until at least \<open>n\<close>: the count a worker
  of a count run ends with.
\<close>

definition passes_total :: "int \<Rightarrow> int \<Rightarrow> int \<Rightarrow> int" where
  "passes_total k n r = (if r < n then r + k * ((n - r + k - 1) div k) else r)"


section \<open>Concrete runs\<close>

text \<open>
  A count run of the engine over three URLs: the first answers 204, the second 500, the
  third cannot be reached. The network state counts the requests sent.
\<close>

definition fh_example :: "(string, nat) fasthttp" where
  "fh_example =
     \<lparr>fh_AcquireRequest = [],
      fh_SetRequestURI = (\<lambda>u req. u),
      fh_SetMethodBytes = (\<lambda>m req. req),
      fh_HeaderSet = (\<lambda>k v req. req),
      fh_SetContentType = (\<lambda>c req. req),
      fh_SetBody = (\<lambda>b req. req),
      fh_Do = (\<lambda>req w. ((if req = ''http://down'' then Some (Error ''dial tcp'') else None,
                            if req = ''http://a'' then 204 else 500), Suc w))\<rparr>"

definition cfg_three_urls :: configuration where
  "cfg_three_urls =
     \<lparr>urls = [''http://a'', ''http://b'', ''http://down''], method = ''GET'', postData = [],
      contentType = [], requestCount = 10, requestsDuration = - 1, keepAlive = True,
      authHeader = []\<rparr>"

text \<open>
  A connection whose \<^verbatim>\<open>Read\<close> delivers three bytes together with \<^verbatim>\<open>io.EOF\<close> and whose
  \<^verbatim>\<open>Write\<close> sends two bytes and then fails.
\<close>

definition conn_eof :: "unit net_Conn" where
  "conn_eof =
     \<lparr>Conn_Read = (\<lambda>conn b. (\<lparr>io_buf = ''abc'', io_n = 3, io_err = Some (Error ''EOF'')\<rparr>, conn)),
      Conn_Write = (\<lambda>conn b. (\<lparr>io_buf = b, io_n = 2, io_err = Some (Error ''broken pipe'')\<rparr>, conn))\<rparr>"

text \<open>
  The single client against a server that answers 200 with a body of 13 bytes. The state
  counts the requests sent; each takes 0.4 s of the clock (in nanoseconds), and from the
  third on the transport fails. The URL \<^verbatim>\<open>://\<close> is refused by the constructor.
\<close>

definition env_example :: "(string, nat) net_http" where
  "env_example =
     \<lparr>NewRequestWithContext =
        (\<lambda>ctx m u body. if u = ''://'' then Inl (Error ''missing protocol scheme'')
                        else Inr (m @ '' '' @ u)),
      http_HeaderSet = (\<lambda>k v req. req),
      http_Do = (\<lambda>req w. (if 2 \<le> w then DoError (Error ''context deadline exceeded'')
                           else Response 200 ''test response'' None, Suc w)),
      time_Now = (\<lambda>w. 400000000 * int w)\<rparr>"

text \<open>
  The same server, refusing the first connection only: a failure that no timeout caused.
\<close>

definition env_first_refused :: "(string, nat) net_http" where
  "env_first_refused =
     env_example\<lparr>http_Do := (\<lambda>req w. (if w = 0 then DoError (Error ''connection refused'')
                                       else Response 200 ''test response'' None, Suc w))\<rparr>"

definition client_post :: Client where
  "client_post =
     \<lparr>Statistic = new_Statistic,
      Request = \<lparr>URL = ''http://localhost'', PostBody = Some ''abc'', ContentType = ''text/plain'',
                 KeepAlive = True, AdditionalHeaders = []\<rparr>\<rparr>"

definition client_bad_url :: Client where
  "client_bad_url =
     \<lparr>Statistic = new_Statistic,
      Request = \<lparr>URL = ''://'', PostBody = None, ContentType = [],
                 KeepAlive = True, AdditionalHeaders = []\<rparr>\<rparr>"


section \<open>The aggregation of printResults\<close>

lemma sum_results_acc:
  "sum_results rs acc =
     \<lparr>requests = requests acc + sum_list (map requests rs),
      success = success acc + sum_list (map success rs),
      networkFailed = networkFailed acc + sum_list (map networkFailed rs),
      badFailed = badFailed acc + sum_list (map badFailed rs)\<rparr>"
  by (induction rs arbitrary: acc) (simp_all add: add.assoc)

lemma sum_results_new:
  "sum_results rs new_Result =
     \<lparr>requests = sum_list (map requests rs),
      success = sum_list (map success rs),
      networkFailed = sum_list (map networkFailed rs),
      badFailed = sum_list (map badFailed rs)\<rparr>"
  by (simp add: sum_results_acc new_Result_def)

text \<open>
  Go meets the entries of a map in no fixed order. The sums do not depend on it, which is
  why a list of the values stands for the map.
\<close>

lemma sum_list_map_mset:
  fixes f :: "'a \<Rightarrow> int"
  assumes "mset xs = mset ys"
  shows "sum_list (map f xs) = sum_list (map f ys)"
proof -
  have "sum_list (map f xs) = sum_mset (image_mset f (mset xs))"
    by (metis mset_map sum_mset_sum_list)
  also have "\<dots> = sum_mset (image_mset f (mset ys))"
    by (simp only: assms)
  also have "\<dots> = sum_list (map f ys)"
    by (metis mset_map sum_mset_sum_list)
  finally show ?thesis .
qed

lemma printResults_any_order:
  assumes "mset results = mset results'"
  shows "printResults results since t = printResults results' since t"
  unfolding printResults_def sum_results_new
  by (simp only: sum_list_map_mset [OF assms])

lemma elapsed_max:
  assumes "0 \<le> since"
  shows "(if int64_of_float since = 0 then 1 else int64_of_float since) = max 1 \<lfloor>since\<rfloor>"
proof -
  from assms have "0 \<le> \<lfloor>since\<rfloor>" by simp
  then have "(if \<lfloor>since\<rfloor> = 0 then 1 else \<lfloor>since\<rfloor>) = max 1 \<lfloor>since\<rfloor>" by arith
  moreover from assms have "int64_of_float since = \<lfloor>since\<rfloor>"
    by (simp add: int64_of_float_def)
  ultimately show ?thesis by (simp only:)
qed

text \<open>On the counters of a run, which are not negative, Go's division is \<open>div\<close>.\<close>

lemma sdiv_nonneg:
  fixes a b :: int
  shows "0 \<le> a \<Longrightarrow> 0 < b \<Longrightarrow> a sdiv b = a div b"
  by (simp add: signed_divide_int_def sgn_if)

text \<open>
  C5. \<^verbatim>\<open>printResults\<close> reports the sums of \<open>requests\<close>, \<open>success\<close>, \<open>networkFailed\<close> and
  \<open>badFailed\<close> over all results; the elapsed seconds are the larger of 1 and the floor of
  the seconds since the start; the success rate and the read and write throughput are the
  total of successes, \<open>readThroughput\<close> and \<open>writeThroughput\<close>, each divided (integer
  division) by the elapsed seconds. This holds for every list of results and every
  elapsed time that is not negative.
\<close>

theorem printResults_statistics:
  assumes "0 \<le> since"
  shows "printResults results since t =
     \<lparr>rep_requests = sum_list (map requests results),
      rep_success = sum_list (map success results),
      rep_networkFailed = sum_list (map networkFailed results),
      rep_badFailed = sum_list (map badFailed results),
      rep_successRate = sum_list (map success results) sdiv max 1 \<lfloor>since\<rfloor>,
      rep_readThroughput = readThroughput t sdiv max 1 \<lfloor>since\<rfloor>,
      rep_writeThroughput = writeThroughput t sdiv max 1 \<lfloor>since\<rfloor>,
      rep_elapsed = max 1 \<lfloor>since\<rfloor>\<rparr>"
  unfolding printResults_def Let_def sum_results_new elapsed_max [OF assms]
  by simp

theorem printResults_statistics_witness:
  "(0::real) \<le> 5 / 2 \<and>
   printResults
     [\<lparr>requests = 10, success = 7, networkFailed = 2, badFailed = 1\<rparr>,
      \<lparr>requests = 5, success = 4, networkFailed = 0, badFailed = 1\<rparr>]
     (5 / 2) \<lparr>readThroughput = 131, writeThroughput = 7\<rparr> =
   \<lparr>rep_requests = 15, rep_success = 11, rep_networkFailed = 2, rep_badFailed = 2,
    rep_successRate = 5, rep_readThroughput = 65, rep_writeThroughput = 3, rep_elapsed = 2\<rparr>"
proof -
  have h: "(0::real) \<le> 5 / 2" by simp
  from printResults_statistics [OF h, of
     "[\<lparr>requests = 10, success = 7, networkFailed = 2, badFailed = 1\<rparr>,
       \<lparr>requests = 5, success = 4, networkFailed = 0, badFailed = 1\<rparr>]"
     "\<lparr>readThroughput = 131, writeThroughput = 7\<rparr>"]
  show ?thesis by (simp add: signed_divide_int_def)
qed



section \<open>The counting connection\<close>

text \<open>
  C6. A \<^verbatim>\<open>Read\<close> or \<^verbatim>\<open>Write\<close> through \<^verbatim>\<open>MyConn\<close> gives the caller exactly what the embedded
  connection gave (buffer, count \<open>n\<close>, error, connection). When the error is nil, \<open>n\<close> is
  added to \<open>readThroughput\<close> (for a read) or to \<open>writeThroughput\<close> (for a write); when
  there is an error nothing is added; the other counter is never touched.
\<close>

theorem MyConn_counts_successful_io:
  "fst (MyConn_Read nc conn b t) = Conn_Read nc conn b \<and>
   readThroughput (snd (MyConn_Read nc conn b t)) =
     readThroughput t +
       (if io_err (fst (Conn_Read nc conn b)) = None
        then int (io_n (fst (Conn_Read nc conn b))) else 0) \<and>
   writeThroughput (snd (MyConn_Read nc conn b t)) = writeThroughput t \<and>
   fst (MyConn_Write nc conn b t) = Conn_Write nc conn b \<and>
   writeThroughput (snd (MyConn_Write nc conn b t)) =
     writeThroughput t +
       (if io_err (fst (Conn_Write nc conn b)) = None
        then int (io_n (fst (Conn_Write nc conn b))) else 0) \<and>
   readThroughput (snd (MyConn_Write nc conn b t)) = readThroughput t"
  by (simp add: MyConn_Read_def MyConn_Write_def add_readThroughput_def add_writeThroughput_def
      split: prod.splits)

lemma MyConn_call_mono:
  "readThroughput t \<le> readThroughput (MyConn_call nc c t) \<and>
   writeThroughput t \<le> writeThroughput (MyConn_call nc c t)"
  by (cases c)
     (simp_all add: MyConn_Read_def MyConn_Write_def add_readThroughput_def
        add_writeThroughput_def split: prod.splits)

lemma MyConn_calls_mono:
  "readThroughput t \<le> readThroughput (MyConn_calls nc cs t) \<and>
   writeThroughput t \<le> writeThroughput (MyConn_calls nc cs t)"
proof (induction cs arbitrary: t)
  case Nil
  show ?case by simp
next
  case (Cons c cs)
  from MyConn_call_mono [of t nc c] Cons.IH [of "MyConn_call nc c t"]
  show ?case by simp
qed

lemma MyConn_calls_append:
  "MyConn_calls nc (cs @ cs') t = MyConn_calls nc cs' (MyConn_calls nc cs t)"
  by (induction cs arbitrary: t) simp_all

text \<open>
  C7. Throughout a run the two counters never decrease: whatever calls have been made
  (\<open>cs\<close>) and whatever calls follow (\<open>cs'\<close>), on any connections and with any results, the
  counters after the longer sequence are at least what they were after the shorter one.
\<close>

theorem throughput_never_decreases:
  "readThroughput (MyConn_calls nc cs t) \<le> readThroughput (MyConn_calls nc (cs @ cs') t) \<and>
   writeThroughput (MyConn_calls nc cs t) \<le> writeThroughput (MyConn_calls nc (cs @ cs') t)"
  unfolding MyConn_calls_append by (rule MyConn_calls_mono)

text \<open>
  C10. When the embedded \<^verbatim>\<open>Read\<close> (or \<^verbatim>\<open>Write\<close>) reports \<open>n > 0\<close> bytes together with an
  error, the caller is told \<open>n\<close>, the counter stays as it was, and so it is short of the
  bytes transferred by \<open>n\<close>.
\<close>

theorem MyConn_error_not_counted:
  "(io_err (fst (Conn_Read nc conn b)) \<noteq> None \<longrightarrow> 0 < io_n (fst (Conn_Read nc conn b)) \<longrightarrow>
      io_n (fst (fst (MyConn_Read nc conn b t))) = io_n (fst (Conn_Read nc conn b)) \<and>
      readThroughput (snd (MyConn_Read nc conn b t)) = readThroughput t \<and>
      readThroughput (snd (MyConn_Read nc conn b t)) <
        readThroughput t + int (io_n (fst (fst (MyConn_Read nc conn b t))))) \<and>
   (io_err (fst (Conn_Write nc conn b)) \<noteq> None \<longrightarrow> 0 < io_n (fst (Conn_Write nc conn b)) \<longrightarrow>
      io_n (fst (fst (MyConn_Write nc conn b t))) = io_n (fst (Conn_Write nc conn b)) \<and>
      writeThroughput (snd (MyConn_Write nc conn b t)) = writeThroughput t \<and>
      writeThroughput (snd (MyConn_Write nc conn b t)) <
        writeThroughput t + int (io_n (fst (fst (MyConn_Write nc conn b t)))))"
  by (simp add: MyConn_Read_def MyConn_Write_def split: prod.splits)

theorem MyConn_error_not_counted_witness:
  "io_err (fst (Conn_Read conn_eof () [])) \<noteq> None \<and>
   io_n (fst (fst (MyConn_Read conn_eof () [] \<lparr>readThroughput = 10, writeThroughput = 20\<rparr>))) = 3 \<and>
   readThroughput (snd (MyConn_Read conn_eof () [] \<lparr>readThroughput = 10, writeThroughput = 20\<rparr>)) = 10 \<and>
   io_err (fst (Conn_Write conn_eof () ''abc'')) \<noteq> None \<and>
   io_n (fst (fst (MyConn_Write conn_eof () ''abc'' \<lparr>readThroughput = 10, writeThroughput = 20\<rparr>))) = 2 \<and>
   writeThroughput (snd (MyConn_Write conn_eof () ''abc'' \<lparr>readThroughput = 10, writeThroughput = 20\<rparr>)) = 20"
proof -
  have r: "io_err (fst (Conn_Read conn_eof () [])) \<noteq> None"
    "0 < io_n (fst (Conn_Read conn_eof () []))" "io_n (fst (Conn_Read conn_eof () [])) = 3"
    by (simp_all add: conn_eof_def)
  have w: "io_err (fst (Conn_Write conn_eof () ''abc'')) \<noteq> None"
    "0 < io_n (fst (Conn_Write conn_eof () ''abc''))" "io_n (fst (Conn_Write conn_eof () ''abc'')) = 2"
    by (simp_all add: conn_eof_def)
  from MyConn_error_not_counted [of conn_eof "()" "[]" "\<lparr>readThroughput = 10, writeThroughput = 20\<rparr>"] r
  have "io_n (fst (fst (MyConn_Read conn_eof () [] \<lparr>readThroughput = 10, writeThroughput = 20\<rparr>))) = 3 \<and>
    readThroughput (snd (MyConn_Read conn_eof () [] \<lparr>readThroughput = 10, writeThroughput = 20\<rparr>)) = 10"
    by simp
  moreover
  from MyConn_error_not_counted [of conn_eof "()" "''abc''" "\<lparr>readThroughput = 10, writeThroughput = 20\<rparr>"] w
  have "io_n (fst (fst (MyConn_Write conn_eof () ''abc'' \<lparr>readThroughput = 10, writeThroughput = 20\<rparr>))) = 2 \<and>
    writeThroughput (snd (MyConn_Write conn_eof () ''abc'' \<lparr>readThroughput = 10, writeThroughput = 20\<rparr>)) = 20"
    by simp
  ultimately show ?thesis using r(1) w(1) by simp
qed

section \<open>The worker\<close>



lemma client_attempt_accounted:
  "accounted (fst s) \<Longrightarrow> accounted (fst (client_attempt fh cfg u s))"
  by (cases s) (auto simp: accounted_def client_attempt_def Let_def split: prod.splits)

lemma client_urls_accounted:
  "accounted (fst s) \<Longrightarrow> accounted (fst (client_urls fh cfg us s))"
  by (induction us arbitrary: s) (simp_all add: client_attempt_accounted)

lemma client_accounted:
  "client fh cfg s = Some s' \<Longrightarrow> accounted (fst s) \<longrightarrow> accounted (fst s')"
proof (erule client.raw_induct
    [where P = "\<lambda>fh cfg s s'. accounted (fst s) \<longrightarrow> accounted (fst s')", rotated])
  fix client' fh cfg s s'
  assume IH: "\<And>fh cfg s s'. client' fh cfg s = Some s' \<Longrightarrow>
        accounted (fst s) \<longrightarrow> accounted (fst s')"
    and step: "(if requests (fst s) < requestCount cfg \<or> requestsDuration cfg \<noteq> - 1
      then client' fh cfg (client_urls fh cfg (urls cfg) s) else Some s) = Some s'"
  show "accounted (fst s) \<longrightarrow> accounted (fst s')"
  proof (cases "requests (fst s) < requestCount cfg \<or> requestsDuration cfg \<noteq> - 1")
    case True
    with step have "client' fh cfg (client_urls fh cfg (urls cfg) s) = Some s'" by simp
    from IH [OF this] show ?thesis by (simp add: client_urls_accounted)
  next
    case False
    with step have "s' = s" by simp
    then show ?thesis by simp
  qed
qed

lemma new_Result_accounted: "accounted new_Result"
  by (simp add: accounted_def new_Result_def)

text \<open>The run of one worker over the three URLs with a request count of 10.\<close>

lemma client_three_urls:
  "client fh_example cfg_three_urls (new_Result, 0) =
     Some (\<lparr>requests = 12, success = 4, networkFailed = 4, badFailed = 4\<rparr>, 12)"
  by (simp add: client.simps client_attempt_def client_request_def fh_example_def
      cfg_three_urls_def new_Result_def)

text \<open>
  C4. For every \<^verbatim>\<open>Result\<close>, \<open>requests = success + networkFailed + badFailed\<close>: every
  attempt keeps the equation, whatever its outcome; it holds after any sequence of
  attempts on a fresh result; and it holds for the result of a worker that has returned.
\<close>

theorem requests_is_sum_of_outcomes:
  "(requests result = success result + networkFailed result + badFailed result \<longrightarrow>
      requests (fst (client_attempt fh cfg tmpUrl (result, w))) =
        success (fst (client_attempt fh cfg tmpUrl (result, w))) +
        networkFailed (fst (client_attempt fh cfg tmpUrl (result, w))) +
        badFailed (fst (client_attempt fh cfg tmpUrl (result, w)))) \<and>
   requests (fst (client_urls fh cfg us (new_Result, w))) =
     success (fst (client_urls fh cfg us (new_Result, w))) +
     networkFailed (fst (client_urls fh cfg us (new_Result, w))) +
     badFailed (fst (client_urls fh cfg us (new_Result, w))) \<and>
   (client fh cfg (new_Result, w) = Some (result', w') \<longrightarrow>
      requests result' = success result' + networkFailed result' + badFailed result')"
proof (intro conjI impI)
  assume "requests result = success result + networkFailed result + badFailed result"
  then have "accounted (fst (result, w))" by (simp add: accounted_def)
  from client_attempt_accounted [OF this, of fh cfg tmpUrl]
  show "requests (fst (client_attempt fh cfg tmpUrl (result, w))) =
        success (fst (client_attempt fh cfg tmpUrl (result, w))) +
        networkFailed (fst (client_attempt fh cfg tmpUrl (result, w))) +
        badFailed (fst (client_attempt fh cfg tmpUrl (result, w)))"
    by (simp add: accounted_def)
next
  have "accounted (fst (new_Result, w))" by (simp add: new_Result_accounted)
  from client_urls_accounted [OF this, of fh cfg us]
  show "requests (fst (client_urls fh cfg us (new_Result, w))) =
     success (fst (client_urls fh cfg us (new_Result, w))) +
     networkFailed (fst (client_urls fh cfg us (new_Result, w))) +
     badFailed (fst (client_urls fh cfg us (new_Result, w)))"
    by (simp add: accounted_def)
next
  assume "client fh cfg (new_Result, w) = Some (result', w')"
  from client_accounted [OF this] new_Result_accounted have "accounted result'" by simp
  then show "requests result' = success result' + networkFailed result' + badFailed result'"
    by (simp add: accounted_def)
qed

theorem requests_is_sum_of_outcomes_witness:
  "accounted \<lparr>requests = 2, success = 1, networkFailed = 0, badFailed = 1\<rparr> \<and>
   accounted (fst (client_attempt fh_example cfg_three_urls ''http://down''
      (\<lparr>requests = 2, success = 1, networkFailed = 0, badFailed = 1\<rparr>, 0))) \<and>
   client fh_example cfg_three_urls (new_Result, 0) =
     Some (\<lparr>requests = 12, success = 4, networkFailed = 4, badFailed = 4\<rparr>, 12) \<and>
   accounted \<lparr>requests = 12, success = 4, networkFailed = 4, badFailed = 4\<rparr>"
proof -
  have h1: "accounted \<lparr>requests = 2, success = 1, networkFailed = 0, badFailed = 1\<rparr>"
    by (simp add: accounted_def)
  from requests_is_sum_of_outcomes [where
      result = "\<lparr>requests = 2, success = 1, networkFailed = 0, badFailed = 1\<rparr>"
      and fh = fh_example and cfg = cfg_three_urls and tmpUrl = "''http://down''"
      and us = "[]" and w = 0
      and result' = "\<lparr>requests = 12, success = 4, networkFailed = 4, badFailed = 4\<rparr>"
      and w' = 12]
    h1 [unfolded accounted_def] client_three_urls
  show ?thesis unfolding accounted_def by blast
qed

lemma client_attempt_requests:
  "requests (fst (client_attempt fh cfg u s)) = requests (fst s) + 1"
  by (simp add: client_attempt_def Let_def split: prod.splits)

lemma client_urls_requests:
  "requests (fst (client_urls fh cfg us s)) = requests (fst s) + int (length us)"
  by (induction us arbitrary: s) (simp_all add: client_attempt_requests)

lemma passes_total_step:
  assumes "0 < k" "r < n"
  shows "passes_total k n (r + k) = passes_total k n r"
proof (cases "r + k < n")
  case True
  have "(n - r + k - 1) div k = (n - (r + k) + k - 1) div k + 1"
    using assms(1) div_add_self2 [of k "n - (r + k) + k - 1"] by (simp add: algebra_simps)
  with True assms show ?thesis by (simp add: passes_total_def algebra_simps)
next
  case False
  with assms have "0 \<le> n - r - 1" "n - r - 1 < k" by simp_all
  then have "(n - r - 1) div k = 0"
    by (simp add: div_pos_pos_trivial)
  moreover have "(n - r + k - 1) div k = (n - r - 1) div k + 1"
    using assms(1) div_add_self2 [of k "n - r - 1"] by (simp add: algebra_simps)
  ultimately have "(n - r + k - 1) div k = 1" by simp
  with False assms show ?thesis by (simp add: passes_total_def)
qed

text \<open>
  A count run over at least one URL ends, and the worker has then made whole passes over
  the URLs: the least multiple of their number that reaches the request count.
\<close>

lemma client_count_requests:
  assumes "requestsDuration cfg = - 1" "urls cfg \<noteq> []"
  shows "\<exists>s'. client fh cfg s = Some s' \<and>
     requests (fst s') =
       passes_total (int (length (urls cfg))) (requestCount cfg) (requests (fst s))"
proof (induction "nat (requestCount cfg - requests (fst s))" arbitrary: s rule: less_induct)
  case less
  let ?k = "int (length (urls cfg))"
  from assms(2) have k: "0 < ?k" by simp
  show ?case
  proof (cases "requests (fst s) < requestCount cfg")
    case False
    with assms(1) have "client fh cfg s = Some s" by (subst client.simps) simp
    with False show ?thesis by (simp add: passes_total_def)
  next
    case True
    let ?s = "client_urls fh cfg (urls cfg) s"
    have r: "requests (fst ?s) = requests (fst s) + ?k" by (rule client_urls_requests)
    with True k
    have "nat (requestCount cfg - requests (fst ?s)) < nat (requestCount cfg - requests (fst s))"
      by simp
    from less [OF this] obtain s' where s': "client fh cfg ?s = Some s'"
      "requests (fst s') = passes_total ?k (requestCount cfg) (requests (fst ?s))" by blast
    from True have "client fh cfg s = client fh cfg ?s" by (subst client.simps) simp
    with s' r passes_total_step [OF k True] show ?thesis by simp
  qed
qed

text \<open>With one URL, or any number of URLs that divides the count, that is the count.\<close>

lemma passes_total_dvd:
  assumes "0 < k" "0 < n" "k dvd n"
  shows "passes_total k n 0 = n"
proof -
  from assms(3) obtain m where m: "n = k * m" by (auto simp: dvd_def)
  have "(k * m + (k - 1)) div k = m + (k - 1) div k"
    using assms(1) by (simp add: div_mult_self4)
  moreover from assms(1) have "(k - 1) div k = 0" by (simp add: div_pos_pos_trivial)
  ultimately show ?thesis using assms m by (simp add: passes_total_def algebra_simps)
qed

lemma those_map_Some:
  assumes "\<forall>x \<in> set xs. \<exists>y. f x = Some y \<and> g y = v"
  shows "\<exists>ys. those (map f xs) = Some ys \<and> sum_list (map g ys) = int (length xs) * (v::int)"
  using assms
proof (induction xs)
  case Nil
  show ?case by simp
next
  case (Cons x xs)
  then obtain ys where ys: "those (map f xs) = Some ys"
    "sum_list (map g ys) = int (length xs) * v" by auto
  from Cons.prems obtain y where y: "f x = Some y" "g y = v" by auto
  from ys y show ?case by (simp add: algebra_simps)
qed

lemma main_count_requests:
  assumes "requestsDuration cfg = - 1" "urls cfg \<noteq> []"
  shows "\<exists>rep. main_count fh cfg ws since t = Some rep \<and>
     rep_requests rep =
       int (length ws) * passes_total (int (length (urls cfg))) (requestCount cfg) 0"
proof -
  have "\<forall>w \<in> set ws. \<exists>s'. client fh cfg (new_Result, w) = Some s' \<and>
      (requests \<circ> fst) s' = passes_total (int (length (urls cfg))) (requestCount cfg) 0"
    using client_count_requests [OF assms, of fh "(new_Result, w)" for w]
    by (simp add: new_Result_def)
  from those_map_Some [OF this] obtain done' where d:
    "those (map (\<lambda>w. client fh cfg (new_Result, w)) ws) = Some done'"
    "sum_list (map (requests \<circ> fst) done') =
       int (length ws) * passes_total (int (length (urls cfg))) (requestCount cfg) 0"
    by blast
  then show ?thesis
    by (simp add: main_count_def printResults_def Let_def sum_results_new comp_def)
qed

text \<open>
  C2, at the input where the code departs from it: three URLs, a request count of 10, one
  worker. The worker checks its counter only between passes over the URLs, so it stops at
  12 requests, and the report shows 12 where the specification has \<open>10 \<times> 1\<close>.
\<close>

theorem main_count_three_urls:
  "main_count fh_example cfg_three_urls [0] 1 \<lparr>readThroughput = 0, writeThroughput = 0\<rparr> =
     Some \<lparr>rep_requests = 12, rep_success = 4, rep_networkFailed = 4, rep_badFailed = 4,
           rep_successRate = 4, rep_readThroughput = 0, rep_writeThroughput = 0,
           rep_elapsed = 1\<rparr> \<and>
   requestCount cfg_three_urls * int (length [0::nat]) = 10"
proof -
  have "main_count fh_example cfg_three_urls [0] 1 \<lparr>readThroughput = 0, writeThroughput = 0\<rparr> =
      Some (printResults [\<lparr>requests = 12, success = 4, networkFailed = 4, badFailed = 4\<rparr>] 1
        \<lparr>readThroughput = 0, writeThroughput = 0\<rparr>)"
    by (simp add: main_count_def client_three_urls)
  moreover have "printResults [\<lparr>requests = 12, success = 4, networkFailed = 4, badFailed = 4\<rparr>] 1
        \<lparr>readThroughput = 0, writeThroughput = 0\<rparr> =
      \<lparr>rep_requests = 12, rep_success = 4, rep_networkFailed = 4, rep_badFailed = 4,
       rep_successRate = 4, rep_readThroughput = 0, rep_writeThroughput = 0, rep_elapsed = 1\<rparr>"
    by (simp add: printResults_def new_Result_def int64_of_float_def Let_def
        signed_divide_int_def)
  moreover have "requestCount cfg_three_urls * int (length [0::nat]) = 10"
    by (simp add: cfg_three_urls_def)
  ultimately show ?thesis by simp
qed

section \<open>The single client\<close>

lemma write_statistic_counts:
  "RequestCount (write_statistic r StatusCode body err st) = RequestCount st \<and>
   NetworkFailedCount (write_statistic r StatusCode body err st) = NetworkFailedCount st \<and>
   SuccessCount (write_statistic r StatusCode body err st) =
     SuccessCount st + (if 200 \<le> StatusCode \<and> StatusCode \<le> 299 then 1 else 0) \<and>
   FailureCount (write_statistic r StatusCode body err st) =
     FailureCount st + (if 200 \<le> StatusCode \<and> StatusCode \<le> 299 then 0 else 1) \<and>
   IOFailedCount (write_statistic r StatusCode body err st) =
     IOFailedCount st + (if err \<noteq> None then 1 else 0) \<and>
   ReadThroughput (write_statistic r StatusCode body err st) =
     ReadThroughput st + int (length body) \<and>
   WriteThroughput (write_statistic r StatusCode body err st) =
     WriteThroughput st + int (length (case PostBody r of None \<Rightarrow> [] | Some b \<Rightarrow> b))"
  by (simp add: write_statistic_def Let_def)

text \<open>
  The statistic of the single client balances in the same way as the engine's result
  (its success range is \<open>[200, 299]\<close>, and a failed read of the body is counted apart).
\<close>

lemma PerformRequestWithContent_accounted:
  assumes "PerformRequestWithContent env ctx (c, w) = Inr (c', w')"
    and "stat_accounted (Statistic c)"
  shows "stat_accounted (Statistic c') \<and>
    RequestCount (Statistic c') = RequestCount (Statistic c) + 1 \<and> Request c' = Request c"
proof (cases "prepare_request env ctx (Request c)")
  case (Inl p)
  with assms(1) show ?thesis by (simp add: PerformRequestWithContent_def)
next
  case (Inr req)
  obtain resp w1 where d: "http_Do env (set_headers env (Request c) req) w = (resp, w1)"
    by (cases "http_Do env (set_headers env (Request c) req) w")
  show ?thesis
  proof (cases resp)
    case (DoError e)
    with assms Inr d show ?thesis
      by (auto simp: PerformRequestWithContent_def Let_def stat_accounted_def)
  next
    case (Response code body e)
    with assms Inr d show ?thesis
      by (auto simp: PerformRequestWithContent_def Let_def stat_accounted_def
          write_statistic_counts)
  qed
qed

lemma RunForAmount_loop_count:
  "RunForAmount_loop env i amount s = Inr s' \<Longrightarrow> stat_accounted (Statistic (fst s)) \<Longrightarrow>
     stat_accounted (Statistic (fst s')) \<and>
     RequestCount (Statistic (fst s')) = RequestCount (Statistic (fst s)) + max 0 (amount - i)"
proof (induction env i amount s rule: RunForAmount_loop.induct)
  case (1 env i amount s)
  show ?case
  proof (cases "i < amount")
    case False
    with "1.prems" show ?thesis by simp
  next
    case True
    with "1.prems"(1) obtain s1 where s1: "PerformRequest env s = Inr s1"
      "RunForAmount_loop env (i + 1) amount s1 = Inr s'"
      by (cases "PerformRequest env s") simp_all
    from s1(1) "1.prems"(2)
    have a: "stat_accounted (Statistic (fst s1))"
      "RequestCount (Statistic (fst s1)) = RequestCount (Statistic (fst s)) + 1"
      using PerformRequestWithContent_accounted [of env Background "fst s" "snd s" "fst s1" "snd s1"]
      by (simp_all add: PerformRequest_def)
    from "1.IH" [OF True s1(1) s1(2) a(1)] a(2) True show ?thesis by simp
  qed
qed

text \<open>
  \<^verbatim>\<open>RunForAmount\<close>, when no request panics, makes exactly the requests it was asked for.
\<close>

lemma RunForAmount_count:
  assumes "RunForAmount env amount (c, w) = Inr (c', w')" and "0 \<le> amount"
    and "stat_accounted (Statistic c)"
  shows "RequestCount (Statistic c') = RequestCount (Statistic c) + amount \<and>
    stat_accounted (Statistic c')"
  using RunForAmount_loop_count [of env 0 amount "(c, w)" "(c', w')"] assms
  by (simp add: RunForAmount_def)

lemma remove_interrupted_accounted:
  "stat_accounted (Statistic c) \<Longrightarrow> stat_accounted (Statistic (remove_interrupted c))"
  by (simp add: remove_interrupted_def stat_accounted_def)


text \<open>
  The compensation does not ask what caused the one failure. Here the first connection
  is refused, the two later requests are answered and the loop ends by the clock with no
  request cut off: the refused request is removed from the statistic all the same.
\<close>

lemma RunForDuration_first_refused:
  "RunForDuration env_first_refused 1000000000 (client_post, 0) =
   Some (Inr (client_post\<lparr>Statistic :=
       \<lparr>ReadThroughput = 26, WriteThroughput = 6, RequestCount = 2, SuccessCount = 2,
        FailureCount = 0, NetworkFailedCount = 0, IOFailedCount = 0\<rparr>\<rparr>, 3))"
  by (simp add: RunForDuration_def RunForDuration_loop.simps PerformRequestWithContent_def
      prepare_request_def set_headers_def write_statistic_def remove_interrupted_def
      env_first_refused_def env_example_def client_post_def new_Statistic_def)



text \<open>
  C8, as stated, fails when the transport fails: with a post body of three bytes and a
  request count of 1, the request is counted as a network failure and the run ends with a
  write throughput of 0.
\<close>

theorem post_body_transport_failure:
  "RunForAmount env_example 1 (client_post, 2) =
     Inr (client_post\<lparr>Statistic :=
       \<lparr>ReadThroughput = 0, WriteThroughput = 0, RequestCount = 1, SuccessCount = 0,
        FailureCount = 0, NetworkFailedCount = 1, IOFailedCount = 0\<rparr>\<rparr>, 3) \<and>
   PostBody (Request client_post) = Some ''abc''"
  by (simp add: RunForAmount_def PerformRequest_def PerformRequestWithContent_def
      prepare_request_def set_headers_def env_example_def client_post_def new_Statistic_def)

text \<open>
  C8, as the code has it. A client with a post body of three bytes and nothing written so
  far, whose request can be constructed, is run for one request: the run returns, and its
  write throughput is 3 when the request got a response (of any status, and whether or
  not its body could be read) and 0 when the transport failed.
\<close>

theorem post_body_write_throughput:
  assumes "PostBody (Request c) = Some body" and "length body = 3"
    and "WriteThroughput (Statistic c) = 0"
    and "prepare_request env Background (Request c) = Inr req"
    and "http_Do env (set_headers env (Request c) req) w = (resp, w')"
  shows "\<exists>c'. RunForAmount env 1 (c, w) = Inr (c', w') \<and>
     WriteThroughput (Statistic c') =
       (case resp of DoError err \<Rightarrow> 0 | Response StatusCode b err \<Rightarrow> 3)"
  using assms
  by (simp add: RunForAmount_def PerformRequest_def PerformRequestWithContent_def Let_def
      write_statistic_def split: http_result.splits)

theorem post_body_write_throughput_witness:
  "prepare_request env_example Background (Request client_post) = Inr ''POST http://localhost'' \<and>
   http_Do env_example (set_headers env_example (Request client_post) ''POST http://localhost'') 0 =
     (Response 200 ''test response'' None, 1) \<and>
   (\<exists>c'. RunForAmount env_example 1 (client_post, 0) = Inr (c', 1) \<and>
      WriteThroughput (Statistic c') = 3)"
proof -
  have h1: "PostBody (Request client_post) = Some ''abc''" "length ''abc'' = 3"
    "WriteThroughput (Statistic client_post) = 0"
    by (simp_all add: client_post_def new_Statistic_def)
  have h2: "prepare_request env_example Background (Request client_post) =
      Inr ''POST http://localhost''"
    by (simp add: prepare_request_def env_example_def client_post_def)
  have h3: "http_Do env_example
      (set_headers env_example (Request client_post) ''POST http://localhost'') 0 =
      (Response 200 ''test response'' None, 1)"
    by (simp add: set_headers_def env_example_def client_post_def)
  from post_body_write_throughput [OF h1 h2 h3] h2 h3 show ?thesis by simp
qed

text \<open>
  C9. When the constructor of the request fails, \<^verbatim>\<open>PerformRequestWithContent\<close> panics:
  it neither returns nor counts the attempt. When the constructor succeeds (which is what
  a well-formed URL means to \<^verbatim>\<open>net/http\<close>, the methods being the constants \<^verbatim>\<open>GET\<close> and
  \<^verbatim>\<open>POST\<close>), it does not panic: it returns, with the request counted.
\<close>

theorem construct_failure_panics:
  "(NewRequestWithContext env ctx
        (case PostBody (Request c) of None \<Rightarrow> ''GET'' | Some b \<Rightarrow> ''POST'')
        (URL (Request c)) (PostBody (Request c)) = Inl e \<longrightarrow>
      (\<exists>p. PerformRequestWithContent env ctx (c, w) = Inl p)) \<and>
   (NewRequestWithContext env ctx
        (case PostBody (Request c) of None \<Rightarrow> ''GET'' | Some b \<Rightarrow> ''POST'')
        (URL (Request c)) (PostBody (Request c)) = Inr req \<longrightarrow>
      (\<exists>s'. PerformRequestWithContent env ctx (c, w) = Inr s' \<and>
          RequestCount (Statistic (fst s')) = RequestCount (Statistic c) + 1))"
  by (cases "PostBody (Request c)")
     (auto simp: PerformRequestWithContent_def prepare_request_def Let_def write_statistic_def
      split: prod.splits http_result.splits)

theorem construct_failure_panics_witness:
  "NewRequestWithContext env_example Background ''GET'' ''://'' None =
     Inl (Error ''missing protocol scheme'') \<and>
   (\<exists>p. PerformRequestWithContent env_example Background (client_bad_url, 0) = Inl p) \<and>
   NewRequestWithContext env_example Background ''POST'' ''http://localhost'' (Some ''abc'') =
     Inr ''POST http://localhost'' \<and>
   (\<exists>s'. PerformRequestWithContent env_example Background (client_post, 0) = Inr s' \<and>
      RequestCount (Statistic (fst s')) = 1)"
proof -
  have h1: "NewRequestWithContext env_example Background
      (case PostBody (Request client_bad_url) of None \<Rightarrow> ''GET'' | Some b \<Rightarrow> ''POST'')
      (URL (Request client_bad_url)) (PostBody (Request client_bad_url)) =
      Inl (Error ''missing protocol scheme'')"
    by (simp add: env_example_def client_bad_url_def)
  have h2: "NewRequestWithContext env_example Background
      (case PostBody (Request client_post) of None \<Rightarrow> ''GET'' | Some b \<Rightarrow> ''POST'')
      (URL (Request client_post)) (PostBody (Request client_post)) =
      Inr ''POST http://localhost''"
    by (simp add: env_example_def client_post_def)
  have v: "URL (Request client_bad_url) = ''://''" "PostBody (Request client_bad_url) = None"
    "URL (Request client_post) = ''http://localhost''"
    "PostBody (Request client_post) = Some ''abc''"
    "RequestCount (Statistic client_post) = 0"
    by (simp_all add: client_bad_url_def client_post_def new_Statistic_def)
  from construct_failure_panics [of env_example Background client_bad_url
      "Error ''missing protocol scheme''" 0] h1
  have p: "\<exists>p. PerformRequestWithContent env_example Background (client_bad_url, 0) = Inl p"
    by blast
  from construct_failure_panics [of env_example Background client_post _ 0
      "''POST http://localhost''"] h2
  have r: "\<exists>s'. PerformRequestWithContent env_example Background (client_post, 0) = Inr s' \<and>
      RequestCount (Statistic (fst s')) = RequestCount (Statistic client_post) + 1"
    by blast
  from h1 h2 p r v show ?thesis by simp
qed

text \<open>Which panic it is: the explicit one for a \<^verbatim>\<open>GET\<close>, the nil request for a \<^verbatim>\<open>POST\<close>.\<close>

lemma construct_failure_panic_value:
  "PerformRequestWithContent env_example Background (client_bad_url, 0) =
     Inl (PanicString ''Could not create http request'') \<and>
   PerformRequestWithContent env_example Background
     (client_bad_url\<lparr>Request := (Request client_bad_url)\<lparr>PostBody := Some ''abc''\<rparr>\<rparr>, 0) =
     Inl NilDereference"
  by (simp add: PerformRequestWithContent_def prepare_request_def env_example_def
      client_bad_url_def)

end
